theory Spec2Isabelle
  imports Main
begin

section \<open>Preset persistence and resynchronisation (preset.cpp)\<close>

text \<open>
  A shallow embedding of the preset engine: \<open>SavePreset\<close> serialises the live options of
  one category into an XML document, \<open>LoadPreset\<close> re-applies a stored document to the
  live options with a cursor that is resynchronised by name, and \<open>DeletePreset\<close>,
  \<open>CreatePresetDirectories\<close> and \<open>SaveSpecifiedPreset\<close> are the storage glue around them.
  The option class (settings.hpp), the line-break helper (utils.hpp), the category
  enumeration (category.hpp), the XML library and the archive calls of the platform are
  not among the sources; each is modelled below under a comment that says so.
\<close>

subsection \<open>Options and menus\<close>

text \<open>
  Modelled from the spec: the category enumeration of category.hpp, a small closed set
  (Setting, Cosmetic, Toggle). preset.cpp names exactly these three constructors.
\<close>

datatype OptionCategory = Setting | Cosmetic | Toggle

text \<open>
  Modelled from the spec: the option class of settings.hpp. An option has a name (which may
  contain line breaks), a category tag, its known choices and the current value as display
  text.
\<close>

record Option_t =
  name :: string
  category :: OptionCategory
  choices :: "string list"
  selectedText :: string

text \<open>Modelled from the spec: \<open>Option::GetName\<close>, the option's name.\<close>

definition GetName :: "Option_t \<Rightarrow> string" where
  "GetName setting = name setting"

text \<open>
  Modelled from the spec: \<open>Option::IsCategory\<close>; only options whose category matches the
  requested operation participate.
\<close>

definition IsCategory :: "OptionCategory \<Rightarrow> Option_t \<Rightarrow> bool" where
  "IsCategory c setting = (category setting = c)"

text \<open>
  Modelled from the spec: \<open>Option::GetSelectedOptionText\<close>, the current value as text.
\<close>

definition GetSelectedOptionText :: "Option_t \<Rightarrow> string" where
  "GetSelectedOptionText setting = selectedText setting"

text \<open>
  Modelled from the spec: \<open>Option::SetSelectedIndexByString\<close>, set selection from text; it
  fails silently and leaves the option unchanged if the text does not match any known
  choice.
\<close>

definition SetSelectedIndexByString :: "string \<Rightarrow> Option_t \<Rightarrow> Option_t" where
  "SetSelectedIndexByString newSetting setting =
     (if newSetting \<in> set (choices setting)
      then setting\<lparr>selectedText := newSetting\<rparr>
      else setting)"

text \<open>
  Modelled from the spec: \<open>RemoveLineBreaks\<close> of utils.hpp, the normalisation that strips
  line breaks from a name (\<open>Foo\nBar\<close> and \<open>FooBar\<close> are the same key).
\<close>

definition RemoveLineBreaks :: "string \<Rightarrow> string" where
  "RemoveLineBreaks s = filter (\<lambda>c. c \<noteq> CHR 0x0A) s"

text \<open>
  Modelled from the spec: the menu structure of settings.hpp, as far as preset.cpp reads it.
  A menu has a mode, of which only equality with \<open>OPTION_MENU\<close> is observed, and the list of
  its options. The list of all menus, \<open>Settings::GetAllOptionMenus()\<close>, is the live state
  the operations take and return. Every option object is taken to occur once in it.
\<close>

datatype MenuMode = OPTION_MENU | OTHER_MENU

record Menu =
  mode :: MenuMode
  settingsList :: "Option_t list"

subsection \<open>Documents\<close>

text \<open>
  Modelled from the spec: the document of the XML library, in the fixed shape the presets
  have: an optional root element with a name and an ordered sequence of child elements,
  each carrying an element name, a \<open>name\<close> attribute and a body text. The XML declaration
  that \<open>SavePreset\<close> inserts first is not an element and is left out. An element
  without the attribute or without text, for which the library hands back a null string,
  is outside this shape; every document \<open>SavePreset\<close> builds is inside it.
  A cursor (\<open>XMLElement*\<close>) is the list made of the element it points to and that element's
  following siblings; the null pointer is the empty list.
\<close>

record XMLElement =
  Name :: string
  Attribute_name :: string
  GetText :: string

record XMLRoot =
  RootName :: string
  ChildElements :: "XMLElement list"

record XMLDocument =
  RootElement :: "XMLRoot option"

type_synonym cursor = "XMLElement list"

definition FirstChildElement :: "XMLRoot \<Rightarrow> cursor" where
  "FirstChildElement rootNode = ChildElements rootNode"

datatype XMLError = XML_SUCCESS | XML_ERROR_FILE_NOT_FOUND
  | XML_ERROR_FILE_COULD_NOT_BE_OPENED | XML_ERROR_PARSING

subsection \<open>Storage\<close>

text \<open>
  Modelled from the spec: the storage collaborator (read a file, write a file, delete a
  file, create a directory) and the SD archive handle of the platform. A stored file either
  parses to a document or does not. Whether the archive can be opened and whether a path
  can be written are facts of the environment. The world counts the archive handles that
  are open and logs every storage call.
\<close>

datatype SdFile = Unparsable | XmlFile XMLDocument

datatype IOEvent = OpenArchive | CloseArchive | CreateDirectory string
  | DeleteFile string | ReadFile string | WriteFile string

record World =
  files :: "string \<rightharpoonup> SdFile"
  directories :: "string list"
  sdmc_available :: bool
  writable :: "string \<Rightarrow> bool"
  open_archives :: nat
  io_log :: "IOEvent list"

text \<open>
  Modelled from the spec: opening the storage handle. It fails when the medium is
  unavailable; when it succeeds one more handle is open.
\<close>

definition FSUSER_OpenArchive :: "World \<Rightarrow> bool \<times> World" where
  "FSUSER_OpenArchive w =
     (if sdmc_available w
      then (True, w\<lparr>open_archives := open_archives w + 1, io_log := io_log w @ [OpenArchive]\<rparr>)
      else (False, w\<lparr>io_log := io_log w @ [OpenArchive]\<rparr>))"

text \<open>Modelled from the spec: releasing the storage handle.\<close>

definition FSUSER_CloseArchive :: "World \<Rightarrow> World" where
  "FSUSER_CloseArchive w =
     w\<lparr>open_archives := open_archives w - 1, io_log := io_log w @ [CloseArchive]\<rparr>"

text \<open>
  Modelled from the spec: ensure a directory, idempotent (create if absent). The code
  ignores its result.
\<close>

definition FSUSER_CreateDirectory :: "string \<Rightarrow> World \<Rightarrow> World" where
  "FSUSER_CreateDirectory path w =
     w\<lparr>directories := List.insert path (directories w),
       io_log := io_log w @ [CreateDirectory path]\<rparr>"

text \<open>
  Modelled from the spec: delete a file, idempotent (absence is not an error). The code
  ignores its result.
\<close>

definition FSUSER_DeleteFile :: "string \<Rightarrow> World \<Rightarrow> World" where
  "FSUSER_DeleteFile path w =
     w\<lparr>files := (files w)(path := None), io_log := io_log w @ [DeleteFile path]\<rparr>"

text \<open>
  Modelled from the spec: \<open>XMLDocument::SaveFile\<close>, write the whole document at a path or
  report failure; what is written parses back into the same shape.
\<close>

definition SaveFile :: "XMLDocument \<Rightarrow> string \<Rightarrow> World \<Rightarrow> XMLError \<times> World" where
  "SaveFile doc path w =
     (if writable w path
      then (XML_SUCCESS,
            w\<lparr>files := (files w)(path \<mapsto> XmlFile doc), io_log := io_log w @ [WriteFile path]\<rparr>)
      else (XML_ERROR_FILE_COULD_NOT_BE_OPENED, w\<lparr>io_log := io_log w @ [WriteFile path]\<rparr>))"

text \<open>
  Modelled from the spec: \<open>XMLDocument::LoadFile\<close>, read and parse the file at a path; it
  fails if the file does not exist or does not parse.
\<close>

definition LoadFile :: "string \<Rightarrow> World \<Rightarrow> (XMLError \<times> XMLDocument) \<times> World" where
  "LoadFile path w =
     ((case files w path of
         None \<Rightarrow> (XML_ERROR_FILE_NOT_FOUND, \<lparr>RootElement = None\<rparr>)
       | Some Unparsable \<Rightarrow> (XML_ERROR_PARSING, \<lparr>RootElement = None\<rparr>)
       | Some (XmlFile doc) \<Rightarrow> (XML_SUCCESS, doc)),
      w\<lparr>io_log := io_log w @ [ReadFile path]\<rparr>)"

subsection \<open>Paths\<close>

text \<open>
  \<open>GetBasePath\<close> indexes a two-element table with the category's number; category.hpp
  declares Setting first and Cosmetic second.
\<close>

fun GetBasePath :: "OptionCategory \<Rightarrow> string" where
  "GetBasePath Setting = ''/3ds/presets/oot3dr/settings/''"
| "GetBasePath Cosmetic = ''/3ds/presets/oot3dr/cosmetics/''"
| "GetBasePath Toggle = ''''"

definition PresetPath :: "string \<Rightarrow> OptionCategory \<Rightarrow> string" where
  "PresetPath presetName c = GetBasePath c @ presetName @ ''.xml''"

subsection \<open>CreatePresetDirectories and DeletePreset\<close>

definition CreatePresetDirectories :: "World \<Rightarrow> bool \<times> World" where
  "CreatePresetDirectories w =
     (case FSUSER_OpenArchive w of
        (False, w1) \<Rightarrow> (False, w1)
      | (True, w1) \<Rightarrow>
          (True,
           FSUSER_CloseArchive
            (FSUSER_CreateDirectory ''/3ds/presets/oot3dr/settings''
              (FSUSER_CreateDirectory ''/3ds/presets/oot3dr/cosmetics''
                (FSUSER_CreateDirectory ''/3ds/presets/oot3dr''
                  (FSUSER_CreateDirectory ''/3ds/presets''
                    (FSUSER_CreateDirectory ''/3ds'' w1)))))))"

definition DeletePreset :: "string \<Rightarrow> OptionCategory \<Rightarrow> World \<Rightarrow> bool \<times> World" where
  "DeletePreset presetName c w =
     (let filepath = PresetPath presetName c in
      case FSUSER_OpenArchive w of
        (False, w1) \<Rightarrow> (False, w1)
      | (True, w1) \<Rightarrow> (True, FSUSER_DeleteFile filepath w1))"

subsection \<open>SavePreset\<close>

text \<open>The body of the inner loop of \<open>SavePreset\<close>: one child element per option of the category.\<close>

fun save_settings :: "OptionCategory \<Rightarrow> Option_t list \<Rightarrow> XMLElement list" where
  "save_settings c [] = []"
| "save_settings c (setting # rest) =
     (if \<not> IsCategory c setting then save_settings c rest
      else \<lparr>Name = ''setting'',
            Attribute_name = RemoveLineBreaks (GetName setting),
            GetText = GetSelectedOptionText setting\<rparr> # save_settings c rest)"

text \<open>The outer loop: menus whose mode is not \<open>OPTION_MENU\<close> are skipped.\<close>

fun save_menus :: "OptionCategory \<Rightarrow> Menu list \<Rightarrow> XMLElement list" where
  "save_menus c [] = []"
| "save_menus c (menu # rest) =
     (if mode menu \<noteq> OPTION_MENU then save_menus c rest
      else save_settings c (settingsList menu) @ save_menus c rest)"

definition preset_document :: "OptionCategory \<Rightarrow> Menu list \<Rightarrow> XMLDocument" where
  "preset_document c menus =
     \<lparr>RootElement = Some \<lparr>RootName = ''settings'', ChildElements = save_menus c menus\<rparr>\<rparr>"

definition SavePreset :: "string \<Rightarrow> OptionCategory \<Rightarrow> Menu list \<Rightarrow> World \<Rightarrow> bool \<times> World" where
  "SavePreset presetName c menus w =
     (case SaveFile (preset_document c menus) (PresetPath presetName c) w of
        (e, w1) \<Rightarrow> (e = XML_SUCCESS, w1))"

definition SaveSpecifiedPreset ::
  "string \<Rightarrow> OptionCategory \<Rightarrow> Menu list \<Rightarrow> World \<Rightarrow> bool \<times> World" where
  "SaveSpecifiedPreset presetName c menus w =
     (if presetName = [] then (False, w) else SavePreset presetName c menus w)"

subsection \<open>LoadPreset\<close>

text \<open>
  Dereferencing a null pointer is an outcome of its own: the program does not return.
  Each iteration of the resync loop records, beside the state the code has, which branch
  it took; the record is ghost state and no decision reads it.
\<close>

datatype LoadError = NullDereference

datatype Path = FastPath | SlowPath

text \<open>
  The slow path's \<open>while (curNode != nullptr)\<close>: on a match the value is applied and the
  cursor moves behind the match; without a match the cursor ends null.
\<close>

fun scan :: "string \<Rightarrow> Option_t \<Rightarrow> cursor \<Rightarrow> Option_t \<times> cursor" where
  "scan settingToFind setting [] = (setting, [])"
| "scan settingToFind setting (curNode # next) =
     (if settingToFind = RemoveLineBreaks (Attribute_name curNode)
      then (SetSelectedIndexByString (GetText curNode) setting, next)
      else scan settingToFind setting next)"

text \<open>The body of the inner loop for an option of the requested category.\<close>

definition resync_option ::
  "XMLRoot \<Rightarrow> Option_t \<Rightarrow> cursor \<Rightarrow> LoadError + (Option_t \<times> cursor \<times> Path)" where
  "resync_option rootNode setting cur =
     (case cur of
        [] \<Rightarrow> Inl NullDereference
      | curNode # next \<Rightarrow>
          (let settingToFind = RemoveLineBreaks (GetName setting);
               (setting', cur', p) =
                 (if settingToFind = RemoveLineBreaks (Attribute_name curNode)
                  then (SetSelectedIndexByString (GetText curNode) setting, next, FastPath)
                  else (case scan settingToFind setting (FirstChildElement rootNode) of
                          (s, c) \<Rightarrow> (s, c, SlowPath)))
           in Inr (setting', if cur' = [] then FirstChildElement rootNode else cur', p)))"

fun resync_settings ::
  "XMLRoot \<Rightarrow> OptionCategory \<Rightarrow> Option_t list \<Rightarrow> cursor
     \<Rightarrow> LoadError + (Option_t list \<times> cursor \<times> Path list)" where
  "resync_settings rootNode c [] cur = Inr ([], cur, [])"
| "resync_settings rootNode c (setting # rest) cur =
     (if \<not> IsCategory c setting
      then (case resync_settings rootNode c rest cur of
              Inl e \<Rightarrow> Inl e
            | Inr (rest', cur', ps) \<Rightarrow> Inr (setting # rest', cur', ps))
      else (case resync_option rootNode setting cur of
              Inl e \<Rightarrow> Inl e
            | Inr (setting', cur1, p) \<Rightarrow>
                (case resync_settings rootNode c rest cur1 of
                   Inl e \<Rightarrow> Inl e
                 | Inr (rest', cur', ps) \<Rightarrow> Inr (setting' # rest', cur', p # ps))))"

fun resync_menus ::
  "XMLRoot \<Rightarrow> OptionCategory \<Rightarrow> Menu list \<Rightarrow> cursor
     \<Rightarrow> LoadError + (Menu list \<times> cursor \<times> Path list)" where
  "resync_menus rootNode c [] cur = Inr ([], cur, [])"
| "resync_menus rootNode c (menu # rest) cur =
     (if mode menu \<noteq> OPTION_MENU
      then (case resync_menus rootNode c rest cur of
              Inl e \<Rightarrow> Inl e
            | Inr (rest', cur', ps) \<Rightarrow> Inr (menu # rest', cur', ps))
      else (case resync_settings rootNode c (settingsList menu) cur of
              Inl e \<Rightarrow> Inl e
            | Inr (settings', cur1, ps1) \<Rightarrow>
                (case resync_menus rootNode c rest cur1 of
                   Inl e \<Rightarrow> Inl e
                 | Inr (rest', cur', ps) \<Rightarrow>
                     Inr (menu\<lparr>settingsList := settings'\<rparr> # rest', cur', ps1 @ ps))))"

definition LoadPreset ::
  "string \<Rightarrow> OptionCategory \<Rightarrow> Menu list \<Rightarrow> World \<Rightarrow> LoadError + (bool \<times> Menu list \<times> World)" where
  "LoadPreset presetName c menus w =
     (case LoadFile (PresetPath presetName c) w of
        ((e, preset), w1) \<Rightarrow>
          if e \<noteq> XML_SUCCESS then Inr (False, menus, w1)
          else (case RootElement preset of
                  None \<Rightarrow> Inl NullDereference
                | Some rootNode \<Rightarrow>
                    if RootName rootNode \<noteq> ''settings'' then Inr (False, menus, w1)
                    else (case resync_menus rootNode c menus (FirstChildElement rootNode) of
                            Inl err \<Rightarrow> Inl err
                          | Inr (menus', cur, ps) \<Rightarrow> Inr (True, menus', w1))))"

subsection \<open>Vocabulary of the properties\<close>

text \<open>
  The live traversal order filtered by category: the options that both loops visit, in the
  order they visit them.
\<close>

definition live_options :: "OptionCategory \<Rightarrow> Menu list \<Rightarrow> Option_t list" where
  "live_options c menus =
     concat (map (\<lambda>menu. filter (IsCategory c) (settingsList menu))
                 (filter (\<lambda>menu. mode menu = OPTION_MENU) menus))"

text \<open>
  The cursor after the end-of-iteration reset, for a document whose entries are \<open>all\<close>: a
  cursor that ran off the end is back at the first entry.
\<close>

definition wrap :: "cursor \<Rightarrow> cursor \<Rightarrow> cursor" where
  "wrap all cur = (if cur = [] then all else cur)"

text \<open>What a loop leaves behind apart from the options: the cursor and the branches taken.\<close>

definition cursor_after ::
  "LoadError + ('a \<times> cursor \<times> Path list) \<Rightarrow> LoadError + (cursor \<times> Path list)" where
  "cursor_after res = (case res of Inl e \<Rightarrow> Inl e | Inr (x, cur, ps) \<Rightarrow> Inr (cur, ps))"

subsection \<open>Example data\<close>

definition ex_forest :: Option_t where
  "ex_forest = \<lparr>name = ''Forest'', category = Setting,
     choices = [''Open'', ''Closed''], selectedText = ''Closed''\<rparr>"

definition ex_bridge :: Option_t where
  "ex_bridge = \<lparr>name = ''Rainbow'' @ CHR 0x0A # ''Bridge'', category = Setting,
     choices = [''Open'', ''Vanilla'', ''Medallions''], selectedText = ''Medallions''\<rparr>"

definition ex_trials :: Option_t where
  "ex_trials = \<lparr>name = ''Trials Count'', category = Setting,
     choices = [''0'', ''6''], selectedText = ''6''\<rparr>"

definition ex_tunic :: Option_t where
  "ex_tunic = \<lparr>name = ''Forest'', category = Cosmetic,
     choices = [''Open'', ''Closed''], selectedText = ''Closed''\<rparr>"

definition ex_menus :: "Menu list" where
  "ex_menus = [\<lparr>mode = OPTION_MENU, settingsList = [ex_forest, ex_tunic]\<rparr>,
               \<lparr>mode = OTHER_MENU, settingsList = [ex_trials]\<rparr>,
               \<lparr>mode = OPTION_MENU, settingsList = [ex_bridge]\<rparr>]"

definition ex_menus_loaded :: "Menu list" where
  "ex_menus_loaded =
     [\<lparr>mode = OPTION_MENU, settingsList = [ex_forest\<lparr>selectedText := ''Open''\<rparr>, ex_tunic]\<rparr>,
      \<lparr>mode = OTHER_MENU, settingsList = [ex_trials]\<rparr>,
      \<lparr>mode = OPTION_MENU, settingsList = [ex_bridge\<lparr>selectedText := ''Open''\<rparr>]\<rparr>]"

definition ex_abc :: "Menu list" where
  "ex_abc = [\<lparr>mode = OPTION_MENU, settingsList = [ex_forest, ex_bridge, ex_trials]\<rparr>]"

definition ex_setting :: "string \<Rightarrow> string \<Rightarrow> XMLElement" where
  "ex_setting n v = \<lparr>Name = ''setting'', Attribute_name = n, GetText = v\<rparr>"

definition ex_root_drifted :: XMLRoot where
  "ex_root_drifted = \<lparr>RootName = ''settings'', ChildElements =
     [ex_setting ''RainbowBridge'' ''Open'', ex_setting ''Forest'' ''Open'',
      ex_setting ''Removed Option'' ''On'']\<rparr>"

definition ex_root_aligned :: XMLRoot where
  "ex_root_aligned = \<lparr>RootName = ''settings'', ChildElements =
     [ex_setting ''Forest'' ''Open'', ex_setting ''RainbowBridge'' ''Vanilla'']\<rparr>"

definition ex_root_empty :: XMLRoot where
  "ex_root_empty = \<lparr>RootName = ''settings'', ChildElements = []\<rparr>"

definition ex_root_old :: XMLRoot where
  "ex_root_old = \<lparr>RootName = ''preset'', ChildElements = [ex_setting ''Forest'' ''Open'']\<rparr>"

definition ex_world :: World where
  "ex_world = \<lparr>files = Map.empty, directories = [], sdmc_available = True,
     writable = (\<lambda>path. True), open_archives = 0, io_log = []\<rparr>"

definition ex_world_with :: "XMLRoot \<Rightarrow> World" where
  "ex_world_with rootNode =
     ex_world\<lparr>files := [PresetPath ''p'' Setting \<mapsto> XmlFile \<lparr>RootElement = Some rootNode\<rparr>]\<rparr>"

definition ex_read :: "World \<Rightarrow> World" where
  "ex_read w = w\<lparr>io_log := io_log w @ [ReadFile (PresetPath ''p'' Setting)]\<rparr>"

section \<open>Auxiliary lemmas\<close>

lemmas ex_defs = ex_forest_def ex_bridge_def ex_trials_def ex_tunic_def ex_menus_def
  ex_menus_loaded_def ex_abc_def ex_setting_def ex_root_drifted_def ex_root_aligned_def
  ex_root_empty_def ex_root_old_def ex_world_def ex_world_with_def ex_read_def

lemmas eval_defs = LoadPreset_def LoadFile_def SavePreset_def SaveFile_def preset_document_def
  FirstChildElement_def resync_option_def RemoveLineBreaks_def GetName_def IsCategory_def
  Let_def GetSelectedOptionText_def SetSelectedIndexByString_def PresetPath_def
  live_options_def

subsection \<open>The option helpers\<close>

lemma RemoveLineBreaks_idem: "RemoveLineBreaks (RemoveLineBreaks s) = RemoveLineBreaks s"
  by (simp add: RemoveLineBreaks_def)

lemma SetSelectedIndexByString_same:
  "SetSelectedIndexByString (GetSelectedOptionText setting) setting = setting"
  by (simp add: SetSelectedIndexByString_def GetSelectedOptionText_def)

lemma SetSelectedIndexByString_name [simp]:
  "GetName (SetSelectedIndexByString t setting) = GetName setting"
  by (simp add: SetSelectedIndexByString_def GetName_def)

lemma SetSelectedIndexByString_cat [simp]:
  "IsCategory c (SetSelectedIndexByString t setting) = IsCategory c setting"
  by (simp add: SetSelectedIndexByString_def IsCategory_def)

lemma SetSelectedIndexByString_idem:
  "SetSelectedIndexByString t (SetSelectedIndexByString t setting) =
     SetSelectedIndexByString t setting"
  by (simp add: SetSelectedIndexByString_def)

lemma live_options_Nil [simp]: "live_options c [] = []"
  by (simp add: live_options_def)

lemma live_options_Cons:
  "live_options c (m # ms) =
     (if mode m = OPTION_MENU then filter (IsCategory c) (settingsList m) else []) @
     live_options c ms"
  by (simp add: live_options_def)

lemma cursor_after_simps [simp]:
  "cursor_after (Inl e) = Inl e"
  "cursor_after (Inr (x, cur, ps)) = Inr (cur, ps)"
  by (simp_all add: cursor_after_def)

subsection \<open>Names and categories are stable; a second pass repeats the first\<close>

lemma scan_name: "scan n s es = (s', cur') \<Longrightarrow> GetName s' = GetName s"
  by (induction es) (auto split: if_splits)

lemma scan_cat: "scan n s es = (s', cur') \<Longrightarrow> IsCategory c s' = IsCategory c s"
  by (induction es) (auto split: if_splits)

lemma scan_idem: "scan n s es = (s', cur') \<Longrightarrow> scan n s' es = (s', cur')"
  by (induction es) (auto simp: SetSelectedIndexByString_idem split: if_splits)

lemma resync_option_name:
  "resync_option r s cur = Inr (s', cur', p) \<Longrightarrow> GetName s' = GetName s"
  by (cases cur)
    (auto simp: resync_option_def Let_def split: if_splits prod.splits dest: scan_name)

lemma resync_option_cat:
  "resync_option r s cur = Inr (s', cur', p) \<Longrightarrow> IsCategory c s' = IsCategory c s"
  by (cases cur)
    (auto simp: resync_option_def Let_def split: if_splits prod.splits dest: scan_cat)

lemma resync_option_idem:
  assumes "resync_option r s cur = Inr (s', cur', p)"
  shows "resync_option r s' cur = Inr (s', cur', p)"
proof (cases cur)
  case Nil
  with assms show ?thesis by (simp add: resync_option_def)
next
  case (Cons e nxt)
  have nm: "GetName s' = GetName s" using assms by (rule resync_option_name)
  show ?thesis
  proof (cases "RemoveLineBreaks (GetName s) = RemoveLineBreaks (Attribute_name e)")
    case True
    with assms Cons nm show ?thesis
      by (auto simp: resync_option_def Let_def SetSelectedIndexByString_idem)
  next
    case False
    obtain s1 c1 where
      sc: "scan (RemoveLineBreaks (GetName s)) s (FirstChildElement r) = (s1, c1)"
      by (cases "scan (RemoveLineBreaks (GetName s)) s (FirstChildElement r)")
    with assms Cons False have "s1 = s'" by (auto simp: resync_option_def Let_def)
    with sc have "scan (RemoveLineBreaks (GetName s)) s' (FirstChildElement r) = (s', c1)"
      by (auto dest: scan_idem)
    with assms Cons False nm sc show ?thesis
      by (auto simp: resync_option_def Let_def)
  qed
qed

lemma resync_settings_idem:
  "resync_settings r c ss cur = Inr (ss', cur', ps) \<Longrightarrow>
   resync_settings r c ss' cur = Inr (ss', cur', ps)"
proof (induction ss arbitrary: cur ss' cur' ps)
  case Nil
  then show ?case by simp
next
  case (Cons s ss)
  show ?case
  proof (cases "IsCategory c s")
    case False
    with Cons.prems obtain rest' where
      r: "resync_settings r c ss cur = Inr (rest', cur', ps)" and e: "ss' = s # rest'"
      by (auto split: sum.splits)
    from Cons.IH [OF r] False e show ?thesis by simp
  next
    case True
    with Cons.prems obtain s1 cur1 p rest' ps' where
      o: "resync_option r s cur = Inr (s1, cur1, p)" and
      r: "resync_settings r c ss cur1 = Inr (rest', cur', ps')" and
      e: "ss' = s1 # rest'" "ps = p # ps'"
      by (auto split: sum.splits)
    have cat: "IsCategory c s1" using o True by (auto dest: resync_option_cat)
    from resync_option_idem [OF o] Cons.IH [OF r] cat e show ?thesis by simp
  qed
qed

lemma resync_menus_idem:
  "resync_menus r c menus cur = Inr (menus', cur', ps) \<Longrightarrow>
   resync_menus r c menus' cur = Inr (menus', cur', ps)"
proof (induction menus arbitrary: cur menus' cur' ps)
  case Nil
  then show ?case by simp
next
  case (Cons m ms)
  show ?case
  proof (cases "mode m = OPTION_MENU")
    case False
    with Cons.prems obtain rest' where
      r: "resync_menus r c ms cur = Inr (rest', cur', ps)" and e: "menus' = m # rest'"
      by (auto split: sum.splits)
    from Cons.IH [OF r] False e show ?thesis by simp
  next
    case True
    with Cons.prems obtain ss1 cur1 ps1 rest' ps' where
      o: "resync_settings r c (settingsList m) cur = Inr (ss1, cur1, ps1)" and
      r: "resync_menus r c ms cur1 = Inr (rest', cur', ps')" and
      e: "menus' = m\<lparr>settingsList := ss1\<rparr> # rest'" "ps = ps1 @ ps'"
      by (auto split: sum.splits)
    from resync_settings_idem [OF o] Cons.IH [OF r] True e show ?thesis by simp
  qed
qed

subsection \<open>The fast path\<close>

lemma resync_option_fast:
  assumes "RemoveLineBreaks (GetName s) = RemoveLineBreaks (Attribute_name e)"
  shows "resync_option r s (e # cur) =
           Inr (SetSelectedIndexByString (GetText e) s, wrap (FirstChildElement r) cur, FastPath)"
  using assms by (simp add: resync_option_def wrap_def)

lemma resync_settings_saved:
  "resync_settings r c ss (wrap (FirstChildElement r) (save_settings c ss @ rest)) =
     Inr (ss, wrap (FirstChildElement r) rest, replicate (length (save_settings c ss)) FastPath)"
proof (induction ss)
  case Nil
  show ?case by simp
next
  case (Cons s ss)
  show ?case
  proof (cases "IsCategory c s")
    case False
    with Cons show ?thesis by simp
  next
    case True
    let ?e = "\<lparr>Name = ''setting'', Attribute_name = RemoveLineBreaks (GetName s),
               GetText = GetSelectedOptionText s\<rparr>"
    have "resync_option r s (?e # save_settings c ss @ rest) =
            Inr (s, wrap (FirstChildElement r) (save_settings c ss @ rest), FastPath)"
      by (simp add: resync_option_fast RemoveLineBreaks_idem SetSelectedIndexByString_same)
    with True Cons show ?thesis by (simp add: wrap_def)
  qed
qed

lemma resync_menus_saved:
  "resync_menus r c menus (wrap (FirstChildElement r) (save_menus c menus @ rest)) =
     Inr (menus, wrap (FirstChildElement r) rest, replicate (length (save_menus c menus)) FastPath)"
proof (induction menus)
  case Nil
  show ?case by simp
next
  case (Cons m ms)
  show ?case
  proof (cases "mode m = OPTION_MENU")
    case False
    with Cons show ?thesis by simp
  next
    case True
    have "resync_settings r c (settingsList m)
            (wrap (FirstChildElement r)
               (save_settings c (settingsList m) @ (save_menus c ms @ rest))) =
          Inr (settingsList m, wrap (FirstChildElement r) (save_menus c ms @ rest),
               replicate (length (save_settings c (settingsList m))) FastPath)"
      by (rule resync_settings_saved)
    with True Cons show ?thesis by (simp add: replicate_add)
  qed
qed

lemma resync_settings_aligned:
  assumes "map (\<lambda>e. RemoveLineBreaks (Attribute_name e)) es =
             map (\<lambda>s. RemoveLineBreaks (GetName s)) (filter (IsCategory c) ss)"
  shows "\<exists>ss'. resync_settings r c ss (wrap (FirstChildElement r) (es @ rest)) =
           Inr (ss', wrap (FirstChildElement r) rest, replicate (length es) FastPath)"
  using assms
proof (induction ss arbitrary: es)
  case Nil
  then show ?case by simp
next
  case (Cons s ss)
  show ?case
  proof (cases "IsCategory c s")
    case False
    with Cons.prems have "map (\<lambda>e. RemoveLineBreaks (Attribute_name e)) es =
             map (\<lambda>s. RemoveLineBreaks (GetName s)) (filter (IsCategory c) ss)" by simp
    from Cons.IH [OF this] False show ?thesis by auto
  next
    case True
    with Cons.prems obtain e es' where
      es: "es = e # es'" and
      nm: "RemoveLineBreaks (GetName s) = RemoveLineBreaks (Attribute_name e)" and
      tl: "map (\<lambda>e. RemoveLineBreaks (Attribute_name e)) es' =
             map (\<lambda>s. RemoveLineBreaks (GetName s)) (filter (IsCategory c) ss)"
      by (cases es) auto
    from Cons.IH [OF tl] obtain ss' where
      "resync_settings r c ss (wrap (FirstChildElement r) (es' @ rest)) =
           Inr (ss', wrap (FirstChildElement r) rest, replicate (length es') FastPath)" ..
    with True es nm show ?thesis
      by (simp add: resync_option_fast wrap_def)
  qed
qed

lemma resync_menus_aligned:
  assumes "map (\<lambda>e. RemoveLineBreaks (Attribute_name e)) es =
             map (\<lambda>s. RemoveLineBreaks (GetName s)) (live_options c menus)"
  shows "\<exists>menus'. resync_menus r c menus (wrap (FirstChildElement r) (es @ rest)) =
           Inr (menus', wrap (FirstChildElement r) rest, replicate (length es) FastPath)"
  using assms
proof (induction menus arbitrary: es)
  case Nil
  then show ?case by simp
next
  case (Cons m ms)
  show ?case
  proof (cases "mode m = OPTION_MENU")
    case False
    with Cons.prems have "map (\<lambda>e. RemoveLineBreaks (Attribute_name e)) es =
             map (\<lambda>s. RemoveLineBreaks (GetName s)) (live_options c ms)"
      by (simp add: live_options_Cons)
    from Cons.IH [OF this] False show ?thesis by auto
  next
    case True
    with Cons.prems obtain es1 es2 where
      es: "es = es1 @ es2" and
      e1: "map (\<lambda>e. RemoveLineBreaks (Attribute_name e)) es1 =
             map (\<lambda>s. RemoveLineBreaks (GetName s)) (filter (IsCategory c) (settingsList m))" and
      e2: "map (\<lambda>e. RemoveLineBreaks (Attribute_name e)) es2 =
             map (\<lambda>s. RemoveLineBreaks (GetName s)) (live_options c ms)"
      by (auto simp: live_options_Cons map_eq_append_conv)
    from resync_settings_aligned [OF e1, of r "es2 @ rest"] obtain ss' where
      a: "resync_settings r c (settingsList m) (wrap (FirstChildElement r) (es1 @ es2 @ rest)) =
           Inr (ss', wrap (FirstChildElement r) (es2 @ rest), replicate (length es1) FastPath)" ..
    from Cons.IH [OF e2] obtain ms' where
      b: "resync_menus r c ms (wrap (FirstChildElement r) (es2 @ rest)) =
           Inr (ms', wrap (FirstChildElement r) rest, replicate (length es2) FastPath)" ..
    from a b True es show ?thesis by (simp add: replicate_add)
  qed
qed

subsection \<open>The cursor and the null pointer\<close>

lemma resync_option_nonnull:
  assumes "FirstChildElement r \<noteq> []" and "cur \<noteq> []"
  shows "\<exists>s' cur' p. resync_option r s cur = Inr (s', cur', p) \<and> cur' \<noteq> []"
proof -
  from assms obtain e nxt where c: "cur = e # nxt" by (cases cur) auto
  show ?thesis using assms(1) unfolding c
    by (auto simp: resync_option_def Let_def split: prod.splits)
qed

lemma resync_settings_nonnull:
  assumes "FirstChildElement r \<noteq> []" and "cur \<noteq> []"
  shows "\<exists>ss' cur' ps. resync_settings r c ss cur = Inr (ss', cur', ps) \<and> cur' \<noteq> []"
  using assms(2)
proof (induction ss arbitrary: cur)
  case Nil
  then show ?case by simp
next
  case (Cons s ss)
  show ?case
  proof (cases "IsCategory c s")
    case False
    from Cons.IH [OF Cons.prems] False show ?thesis by auto
  next
    case True
    from resync_option_nonnull [OF assms(1) Cons.prems] obtain s' cur1 p where
      o: "resync_option r s cur = Inr (s', cur1, p)" and n: "cur1 \<noteq> []" by blast
    from Cons.IH [OF n] o True show ?thesis by auto
  qed
qed

lemma resync_menus_nonnull:
  assumes "FirstChildElement r \<noteq> []" and "cur \<noteq> []"
  shows "\<exists>menus' cur' ps. resync_menus r c menus cur = Inr (menus', cur', ps) \<and> cur' \<noteq> []"
  using assms(2)
proof (induction menus arbitrary: cur)
  case Nil
  then show ?case by simp
next
  case (Cons m ms)
  show ?case
  proof (cases "mode m = OPTION_MENU")
    case False
    from Cons.IH [OF Cons.prems] False show ?thesis by auto
  next
    case True
    from resync_settings_nonnull [OF assms(1) Cons.prems] obtain ss' cur1 ps1 where
      o: "resync_settings r c (settingsList m) cur = Inr (ss', cur1, ps1)" and n: "cur1 \<noteq> []"
      by blast
    from Cons.IH [OF n] o True show ?thesis by auto
  qed
qed

lemma resync_settings_null:
  assumes "FirstChildElement r = []"
  shows "resync_settings r c ss [] =
           (if filter (IsCategory c) ss = [] then Inr (ss, [], []) else Inl NullDereference)"
  by (induction ss) (auto simp: resync_option_def)

lemma resync_menus_null:
  assumes "FirstChildElement r = []"
  shows "resync_menus r c menus [] =
           (if live_options c menus = [] then Inr (menus, [], []) else Inl NullDereference)"
  by (induction menus) (auto simp: live_options_Cons resync_settings_null [OF assms])

lemma LoadPreset_returns_true:
  assumes "files w (PresetPath presetName c) = Some (XmlFile preset)"
    and "RootElement preset = Some rootNode"
    and "RootName rootNode = ''settings''"
    and "FirstChildElement rootNode \<noteq> []"
  shows "\<exists>menus' w'. LoadPreset presetName c menus w = Inr (True, menus', w')"
proof -
  from resync_menus_nonnull [OF assms(4) assms(4)] obtain menus' cur' ps where
    "resync_menus rootNode c menus (FirstChildElement rootNode) = Inr (menus', cur', ps)"
    by blast
  with assms show ?thesis by (simp add: LoadPreset_def LoadFile_def)
qed

subsection \<open>Options of another category\<close>

lemma resync_settings_frame:
  "resync_settings r c ss cur = Inr (ss', cur', ps) \<Longrightarrow>
     list_all2 (\<lambda>s s'. \<not> IsCategory c s \<longrightarrow> s' = s) ss ss'"
proof (induction ss arbitrary: cur ss' cur' ps)
  case Nil
  then show ?case by simp
next
  case (Cons s ss)
  then show ?case
    by (cases "IsCategory c s") (auto split: sum.splits)
qed

lemma resync_menus_frame:
  "resync_menus r c menus cur = Inr (menus', cur', ps) \<Longrightarrow>
     list_all2 (\<lambda>m m'. mode m' = mode m \<and>
        list_all2 (\<lambda>s s'. \<not> IsCategory c s \<longrightarrow> s' = s) (settingsList m) (settingsList m'))
       menus menus'"
proof (induction menus arbitrary: cur menus' cur' ps)
  case Nil
  then show ?case by simp
next
  case (Cons m ms)
  show ?case
  proof (cases "mode m = OPTION_MENU")
    case False
    with Cons.prems obtain rest' where
      r: "resync_menus r c ms cur = Inr (rest', cur', ps)" and e: "menus' = m # rest'"
      by (auto split: sum.splits)
    have "list_all2 (\<lambda>s s'. \<not> IsCategory c s \<longrightarrow> s' = s) (settingsList m) (settingsList m)"
      by (simp add: list_all2_same)
    with Cons.IH [OF r] e show ?thesis by simp
  next
    case True
    with Cons.prems obtain ss1 cur1 ps1 rest' ps' where
      o: "resync_settings r c (settingsList m) cur = Inr (ss1, cur1, ps1)" and
      r: "resync_menus r c ms cur1 = Inr (rest', cur', ps')" and
      e: "menus' = m\<lparr>settingsList := ss1\<rparr> # rest'"
      by (auto split: sum.splits)
    from resync_settings_frame [OF o] Cons.IH [OF r] e show ?thesis by simp
  qed
qed

lemma resync_settings_skip:
  "cursor_after (resync_settings r c ss cur) =
   cursor_after (resync_settings r c (filter (IsCategory c) ss) cur)"
proof (induction ss arbitrary: cur)
  case Nil
  show ?case by simp
next
  case (Cons s ss)
  show ?case
  proof (cases "IsCategory c s")
    case False
    have "cursor_after (resync_settings r c (s # ss) cur) =
            cursor_after (resync_settings r c ss cur)"
      using False by (cases "resync_settings r c ss cur") auto
    with Cons.IH [of cur] False show ?thesis by simp
  next
    case True
    show ?thesis
    proof (cases "resync_option r s cur")
      case (Inl e)
      with True show ?thesis by simp
    next
      case (Inr x)
      obtain s' cur1 p where x: "x = (s', cur1, p)" by (cases x)
      from Cons.IH [of cur1] True Inr x show ?thesis
        by (auto split: sum.splits)
    qed
  qed
qed

subsection \<open>The archive handle\<close>

lemma CreatePresetDirectories_releases:
  "open_archives (snd (CreatePresetDirectories w)) = open_archives w"
  by (simp add: CreatePresetDirectories_def FSUSER_OpenArchive_def FSUSER_CloseArchive_def
      FSUSER_CreateDirectory_def)

lemma DeletePreset_open_archives:
  "open_archives (snd (DeletePreset presetName c w)) =
     (if sdmc_available w then open_archives w + 1 else open_archives w)"
  by (simp add: DeletePreset_def FSUSER_OpenArchive_def FSUSER_DeleteFile_def)

section \<open>Properties\<close>

text \<open>
  C1: for a document whose entries were saved from the options \<open>[A, B, C]\<close>, of the loaded
  category and with pairwise different normalised names, and a live option list of the
  same options reordered to \<open>[C, A, B]\<close> with whatever current values, \<open>LoadPreset\<close> gives
  every option the value that was saved for its name. The first iteration misses the
  fast-path comparison and finds the entry of \<open>C\<close> by the scan from the start of the
  document; the next two hit the fast path. The saved values are known choices of their
  options.
\<close>

theorem LoadPreset_reordered:
  assumes "distinct (map (\<lambda>s. RemoveLineBreaks (GetName s)) [A, B, C])"
    and "IsCategory c A" "IsCategory c B" "IsCategory c C"
    and "selectedText A \<in> set (choices A)" "selectedText B \<in> set (choices B)"
        "selectedText C \<in> set (choices C)"
    and "SavePreset presetName c [\<lparr>mode = OPTION_MENU, settingsList = [A, B, C]\<rparr>] w = (True, w1)"
  shows "LoadPreset presetName c
           [\<lparr>mode = OPTION_MENU,
             settingsList = [C\<lparr>selectedText := tc\<rparr>, A\<lparr>selectedText := ta\<rparr>,
                             B\<lparr>selectedText := tb\<rparr>]\<rparr>] w1 =
         Inr (True, [\<lparr>mode = OPTION_MENU, settingsList = [C, A, B]\<rparr>],
              w1\<lparr>io_log := io_log w1 @ [ReadFile (PresetPath presetName c)]\<rparr>) \<and>
         resync_menus
           \<lparr>RootName = ''settings'',
             ChildElements = save_menus c [\<lparr>mode = OPTION_MENU, settingsList = [A, B, C]\<rparr>]\<rparr> c
           [\<lparr>mode = OPTION_MENU,
             settingsList = [C\<lparr>selectedText := tc\<rparr>, A\<lparr>selectedText := ta\<rparr>,
                             B\<lparr>selectedText := tb\<rparr>]\<rparr>]
           (save_menus c [\<lparr>mode = OPTION_MENU, settingsList = [A, B, C]\<rparr>]) =
         Inr ([\<lparr>mode = OPTION_MENU, settingsList = [C, A, B]\<rparr>], save_settings c [C],
              [SlowPath, FastPath, FastPath])"
proof -
  from assms(8) have f: "files w1 (PresetPath presetName c) =
      Some (XmlFile (preset_document c [\<lparr>mode = OPTION_MENU, settingsList = [A, B, C]\<rparr>]))"
    by (auto simp: SavePreset_def SaveFile_def split: if_splits)
  from assms(1) have d:
    "RemoveLineBreaks (name C) \<noteq> RemoveLineBreaks (name A)"
    "RemoveLineBreaks (name C) \<noteq> RemoveLineBreaks (name B)"
    "RemoveLineBreaks (name A) \<noteq> RemoveLineBreaks (name B)"
    by (auto simp: GetName_def)
  from d assms(2-7) f show ?thesis
    by (simp add: LoadPreset_def LoadFile_def preset_document_def FirstChildElement_def
        resync_option_def RemoveLineBreaks_idem GetName_def IsCategory_def Let_def
        GetSelectedOptionText_def SetSelectedIndexByString_def)
qed

theorem LoadPreset_reordered_witness:
  "distinct (map (\<lambda>s. RemoveLineBreaks (GetName s)) [ex_forest, ex_bridge, ex_trials]) \<and>
   IsCategory Setting ex_forest \<and> IsCategory Setting ex_bridge \<and> IsCategory Setting ex_trials \<and>
   fst (SavePreset ''p'' Setting ex_abc ex_world) \<and>
   LoadPreset ''p'' Setting
     [\<lparr>mode = OPTION_MENU,
       settingsList = [ex_trials\<lparr>selectedText := ''0''\<rparr>, ex_forest\<lparr>selectedText := ''Open''\<rparr>,
                       ex_bridge\<lparr>selectedText := ''Vanilla''\<rparr>]\<rparr>]
     (snd (SavePreset ''p'' Setting ex_abc ex_world)) =
   Inr (True, [\<lparr>mode = OPTION_MENU, settingsList = [ex_trials, ex_forest, ex_bridge]\<rparr>],
        ex_read (snd (SavePreset ''p'' Setting ex_abc ex_world)))"
  using LoadPreset_reordered [of ex_forest ex_bridge ex_trials Setting "''p''" ex_world
      "snd (SavePreset ''p'' Setting ex_abc ex_world)" "''0''" "''Open''" "''Vanilla''"]
  by (simp add: ex_defs SavePreset_def SaveFile_def RemoveLineBreaks_def GetName_def
      IsCategory_def)

text \<open>
  C2: round trip. For every live option set with arbitrary current values, a \<open>SavePreset\<close>
  that succeeds followed immediately by \<open>LoadPreset\<close> of the same name and category, with
  the option list unchanged in between, returns true and leaves every option with exactly
  the value it had before the save. Distinct names are not needed: without drift every
  entry is met at the cursor.
\<close>

theorem SavePreset_LoadPreset_roundtrip:
  assumes "SavePreset presetName c menus w = (True, w1)"
  shows "LoadPreset presetName c menus w1 =
           Inr (True, menus, w1\<lparr>io_log := io_log w1 @ [ReadFile (PresetPath presetName c)]\<rparr>)"
proof -
  let ?r = "\<lparr>RootName = ''settings'', ChildElements = save_menus c menus\<rparr>"
  from assms have f:
    "files w1 (PresetPath presetName c) = Some (XmlFile (preset_document c menus))"
    by (auto simp: SavePreset_def SaveFile_def split: if_splits)
  have "resync_menus ?r c menus (wrap (FirstChildElement ?r) (save_menus c menus @ [])) =
          Inr (menus, wrap (FirstChildElement ?r) [],
               replicate (length (save_menus c menus)) FastPath)"
    by (rule resync_menus_saved)
  then have "resync_menus ?r c menus (FirstChildElement ?r) =
          Inr (menus, FirstChildElement ?r, replicate (length (save_menus c menus)) FastPath)"
    by (simp add: wrap_def FirstChildElement_def)
  with f show ?thesis
    by (simp add: LoadPreset_def LoadFile_def preset_document_def)
qed

theorem SavePreset_LoadPreset_roundtrip_witness:
  "fst (SavePreset ''p'' Setting ex_menus ex_world) \<and>
   LoadPreset ''p'' Setting ex_menus (snd (SavePreset ''p'' Setting ex_menus ex_world)) =
     Inr (True, ex_menus, ex_read (snd (SavePreset ''p'' Setting ex_menus ex_world)))"
  using SavePreset_LoadPreset_roundtrip [of "''p''" Setting ex_menus ex_world
      "snd (SavePreset ''p'' Setting ex_menus ex_world)"]
  by (simp add: ex_world_def ex_read_def SavePreset_def SaveFile_def)

text \<open>
  C3: if the loaded file parses but its root element is not named \<open>settings\<close>, \<open>LoadPreset\<close>
  returns false and the live options are exactly what they were: no option's selected
  value is mutated.
\<close>

theorem LoadPreset_wrong_root:
  assumes "files w (PresetPath presetName c) = Some (XmlFile preset)"
    and "RootElement preset = Some rootNode"
    and "RootName rootNode \<noteq> ''settings''"
  shows "LoadPreset presetName c menus w =
           Inr (False, menus, w\<lparr>io_log := io_log w @ [ReadFile (PresetPath presetName c)]\<rparr>)"
  using assms by (simp add: LoadPreset_def LoadFile_def)

theorem LoadPreset_wrong_root_witness:
  "files (ex_world_with ex_root_old) (PresetPath ''p'' Setting) =
     Some (XmlFile \<lparr>RootElement = Some ex_root_old\<rparr>) \<and>
   RootName ex_root_old \<noteq> ''settings'' \<and>
   LoadPreset ''p'' Setting ex_menus (ex_world_with ex_root_old) =
     Inr (False, ex_menus, ex_read (ex_world_with ex_root_old))"
  using LoadPreset_wrong_root [of "ex_world_with ex_root_old" "''p''" Setting
      "\<lparr>RootElement = Some ex_root_old\<rparr>" ex_root_old ex_menus]
  by (simp add: ex_world_with_def ex_world_def ex_root_old_def ex_read_def)

text \<open>
  C4: applying the same stored document twice in succession to the same live option set
  yields the same final option values as applying it once: when \<open>LoadPreset\<close> returns, a
  second \<open>LoadPreset\<close> of the same name and category on the options and the world it left
  returns the same result and the same options.
\<close>

theorem LoadPreset_idempotent:
  assumes "LoadPreset presetName c menus w = Inr (b, menus1, w1)"
  shows "LoadPreset presetName c menus1 w1 =
           Inr (b, menus1, w1\<lparr>io_log := io_log w1 @ [ReadFile (PresetPath presetName c)]\<rparr>)"
proof -
  have w1: "w1 = w\<lparr>io_log := io_log w @ [ReadFile (PresetPath presetName c)]\<rparr>"
    using assms
    by (auto simp: LoadPreset_def LoadFile_def
        split: option.splits SdFile.splits if_splits sum.splits)
  show ?thesis
  proof (cases b)
    case False
    with assms show ?thesis unfolding w1
      by (auto simp: LoadPreset_def LoadFile_def
          split: option.splits SdFile.splits if_splits sum.splits)
  next
    case True
    with assms obtain preset rootNode cur ps where
      f: "files w (PresetPath presetName c) = Some (XmlFile preset)" and
      r: "RootElement preset = Some rootNode" "RootName rootNode = ''settings''" and
      m: "resync_menus rootNode c menus (FirstChildElement rootNode) = Inr (menus1, cur, ps)"
      by (auto simp: LoadPreset_def LoadFile_def
          split: option.splits SdFile.splits if_splits sum.splits)
    from resync_menus_idem [OF m] f r True show ?thesis unfolding w1
      by (simp add: LoadPreset_def LoadFile_def)
  qed
qed

theorem LoadPreset_idempotent_witness:
  "LoadPreset ''p'' Setting ex_menus (ex_world_with ex_root_drifted) =
     Inr (True, ex_menus_loaded, ex_read (ex_world_with ex_root_drifted)) \<and>
   ex_menus_loaded \<noteq> ex_menus \<and>
   LoadPreset ''p'' Setting ex_menus_loaded (ex_read (ex_world_with ex_root_drifted)) =
     Inr (True, ex_menus_loaded, ex_read (ex_read (ex_world_with ex_root_drifted)))"
proof -
  have h: "LoadPreset ''p'' Setting ex_menus (ex_world_with ex_root_drifted) =
     Inr (True, ex_menus_loaded, ex_read (ex_world_with ex_root_drifted))"
    by (simp add: ex_defs eval_defs)
  have d: "ex_menus_loaded \<noteq> ex_menus"
    by (simp add: ex_defs)
  from LoadPreset_idempotent [OF h] have
    "LoadPreset ''p'' Setting ex_menus_loaded (ex_read (ex_world_with ex_root_drifted)) =
     Inr (True, ex_menus_loaded, ex_read (ex_read (ex_world_with ex_root_drifted)))"
    by (simp add: ex_read_def)
  with h d show ?thesis by simp
qed

text \<open>
  C5: if the document's entry order equals the live category-filtered traversal order
  (entry \<open>i\<close>'s normalised name equals live option \<open>i\<close>'s normalised name, same count),
  the resync loop returns and every one of its iterations, one per live option of the
  category, took the fast path: the scan from the start of the document is never entered.
\<close>

theorem resync_menus_no_drift_fast_path:
  assumes "map (\<lambda>e. RemoveLineBreaks (Attribute_name e)) (ChildElements rootNode) =
             map (\<lambda>s. RemoveLineBreaks (GetName s)) (live_options c menus)"
  shows "\<exists>menus' cur'.
           resync_menus rootNode c menus (FirstChildElement rootNode) =
             Inr (menus', cur', replicate (length (live_options c menus)) FastPath)"
proof -
  from resync_menus_aligned [OF assms, of rootNode "[]"] obtain menus' where
    "resync_menus rootNode c menus (wrap (FirstChildElement rootNode) (ChildElements rootNode)) =
       Inr (menus', wrap (FirstChildElement rootNode) [],
            replicate (length (ChildElements rootNode)) FastPath)"
    by auto
  moreover have "length (ChildElements rootNode) = length (live_options c menus)"
    using assms by (metis length_map)
  ultimately show ?thesis by (simp add: wrap_def FirstChildElement_def)
qed

theorem resync_menus_no_drift_fast_path_witness:
  "map (\<lambda>e. RemoveLineBreaks (Attribute_name e)) (ChildElements ex_root_aligned) =
     map (\<lambda>s. RemoveLineBreaks (GetName s)) (live_options Setting ex_menus) \<and>
   live_options Setting ex_menus = [ex_forest, ex_bridge] \<and>
   (\<exists>menus' cur'.
      resync_menus ex_root_aligned Setting ex_menus (FirstChildElement ex_root_aligned) =
        Inr (menus', cur', [FastPath, FastPath]))"
proof -
  have l: "live_options Setting ex_menus = [ex_forest, ex_bridge]"
    by (simp add: ex_defs live_options_def IsCategory_def)
  have h: "map (\<lambda>e. RemoveLineBreaks (Attribute_name e)) (ChildElements ex_root_aligned) =
     map (\<lambda>s. RemoveLineBreaks (GetName s)) (live_options Setting ex_menus)"
    unfolding l by (simp add: ex_defs RemoveLineBreaks_def GetName_def)
  from resync_menus_no_drift_fast_path [OF h] l h show ?thesis
    by (simp add: numeral_2_eq_2)
qed

text \<open>
  C6: for every document, every live option whose category differs from the requested load
  category is left unchanged by \<open>LoadPreset\<close>, whatever the names of the document's entries:
  the menus keep their number, their modes and the length of their option lists, and at
  every position an option that fails the category test is the option that was there.
  Such options do not advance the cursor either: the inner loop leaves the same cursor, and
  takes the same branches, as on the list without them.
\<close>

theorem LoadPreset_other_category_unchanged:
  "(LoadPreset presetName c menus w = Inr (b, menus', w') \<longrightarrow>
      list_all2 (\<lambda>m m'. mode m' = mode m \<and>
        list_all2 (\<lambda>s s'. \<not> IsCategory c s \<longrightarrow> s' = s) (settingsList m) (settingsList m'))
       menus menus') \<and>
   cursor_after (resync_settings rootNode c ss cur) =
     cursor_after (resync_settings rootNode c (filter (IsCategory c) ss) cur)"
proof (intro conjI impI)
  assume a: "LoadPreset presetName c menus w = Inr (b, menus', w')"
  have same: "list_all2 (\<lambda>m m'. mode m' = mode m \<and>
        list_all2 (\<lambda>s s'. \<not> IsCategory c s \<longrightarrow> s' = s) (settingsList m) (settingsList m'))
       menus menus"
    by (simp add: list_all2_same)
  show "list_all2 (\<lambda>m m'. mode m' = mode m \<and>
        list_all2 (\<lambda>s s'. \<not> IsCategory c s \<longrightarrow> s' = s) (settingsList m) (settingsList m'))
       menus menus'"
  proof (cases b)
    case False
    with a have "menus' = menus"
      by (auto simp: LoadPreset_def LoadFile_def
          split: option.splits SdFile.splits if_splits sum.splits)
    with same show ?thesis by simp
  next
    case True
    with a obtain r cur0 ps where
      "resync_menus r c menus (FirstChildElement r) = Inr (menus', cur0, ps)"
      by (auto simp: LoadPreset_def LoadFile_def
          split: option.splits SdFile.splits if_splits sum.splits)
    then show ?thesis by (rule resync_menus_frame)
  qed
next
  show "cursor_after (resync_settings rootNode c ss cur) =
     cursor_after (resync_settings rootNode c (filter (IsCategory c) ss) cur)"
    by (rule resync_settings_skip)
qed

theorem LoadPreset_other_category_unchanged_witness:
  "LoadPreset ''p'' Setting ex_menus (ex_world_with ex_root_drifted) =
     Inr (True, ex_menus_loaded, ex_read (ex_world_with ex_root_drifted)) \<and>
   \<not> IsCategory Setting ex_tunic \<and>
   RemoveLineBreaks (GetName ex_tunic) =
     RemoveLineBreaks (Attribute_name (ChildElements ex_root_drifted ! 1)) \<and>
   GetText (ChildElements ex_root_drifted ! 1) \<noteq> GetSelectedOptionText ex_tunic \<and>
   settingsList (ex_menus ! 0) ! 1 = ex_tunic \<and>
   settingsList (ex_menus_loaded ! 0) ! 1 = ex_tunic \<and>
   list_all2 (\<lambda>m m'. mode m' = mode m \<and>
        list_all2 (\<lambda>s s'. \<not> IsCategory Setting s \<longrightarrow> s' = s) (settingsList m) (settingsList m'))
       ex_menus ex_menus_loaded"
proof -
  have h: "LoadPreset ''p'' Setting ex_menus (ex_world_with ex_root_drifted) =
     Inr (True, ex_menus_loaded, ex_read (ex_world_with ex_root_drifted))"
    by (simp add: ex_defs eval_defs)
  have t: "\<not> IsCategory Setting ex_tunic \<and>
   RemoveLineBreaks (GetName ex_tunic) =
     RemoveLineBreaks (Attribute_name (ChildElements ex_root_drifted ! 1)) \<and>
   GetText (ChildElements ex_root_drifted ! 1) \<noteq> GetSelectedOptionText ex_tunic \<and>
   settingsList (ex_menus ! 0) ! 1 = ex_tunic \<and>
   settingsList (ex_menus_loaded ! 0) ! 1 = ex_tunic"
    by (simp add: ex_defs IsCategory_def GetName_def GetSelectedOptionText_def)
  from LoadPreset_other_category_unchanged
    [of "''p''" Setting ex_menus "ex_world_with ex_root_drifted" True ex_menus_loaded
        "ex_read (ex_world_with ex_root_drifted)", THEN conjunct1, rule_format, OF h]
    h t show ?thesis by simp
qed

text \<open>
  C7: \<open>SaveSpecifiedPreset\<close> with an empty preset name returns false and performs no I/O: the
  world it returns is the world it was given, with nothing written and nothing appended to
  the log of storage calls.
\<close>

theorem SaveSpecifiedPreset_empty_name:
  "SaveSpecifiedPreset [] c menus w = (False, w)"
  by (simp add: SaveSpecifiedPreset_def)

text \<open>
  C8: every operation that opens the SD archive should close it before returning.
  \<open>CreatePresetDirectories\<close> does; \<open>DeletePreset\<close> does not: on a world where the archive
  opens and no handle is open, it returns true and leaves one handle open.
\<close>

theorem DeletePreset_leaves_archive_open:
  "sdmc_available ex_world \<and> open_archives ex_world = 0 \<and>
   fst (DeletePreset ''p'' Setting ex_world) \<and>
   open_archives (snd (DeletePreset ''p'' Setting ex_world)) = 1 \<and>
   fst (CreatePresetDirectories ex_world) \<and>
   open_archives (snd (CreatePresetDirectories ex_world)) = 0"
  by (simp add: ex_world_def DeletePreset_def CreatePresetDirectories_def FSUSER_OpenArchive_def
      FSUSER_DeleteFile_def FSUSER_CloseArchive_def FSUSER_CreateDirectory_def)

text \<open>
  C9: in the resync loop the cursor is non-null at every dereference only when the parsed
  document has at least one child entry under the root. For a file that parses with a
  root named \<open>settings\<close>, \<open>LoadPreset\<close> dereferences a null cursor exactly when the root has
  no child element and some live option of a menu in option mode has the loaded category:
  the cursor starts as the absent first child, the first such option dereferences it, and
  the reset at the end of an iteration could only set it to the absent first child again.
\<close>

theorem LoadPreset_null_cursor_iff:
  assumes "files w (PresetPath presetName c) = Some (XmlFile preset)"
    and "RootElement preset = Some rootNode"
    and "RootName rootNode = ''settings''"
  shows "(LoadPreset presetName c menus w = Inl NullDereference) =
           (FirstChildElement rootNode = [] \<and> live_options c menus \<noteq> [])"
proof (cases "FirstChildElement rootNode = []")
  case True
  with assms show ?thesis
    by (simp add: LoadPreset_def LoadFile_def resync_menus_null)
next
  case False
  from resync_menus_nonnull [OF False False] obtain menus' cur' ps where
    "resync_menus rootNode c menus (FirstChildElement rootNode) = Inr (menus', cur', ps)"
    by blast
  with assms False show ?thesis
    by (simp add: LoadPreset_def LoadFile_def)
qed

theorem LoadPreset_null_cursor_iff_witness:
  "files (ex_world_with ex_root_empty) (PresetPath ''p'' Setting) =
     Some (XmlFile \<lparr>RootElement = Some ex_root_empty\<rparr>) \<and>
   RootName ex_root_empty = ''settings'' \<and>
   FirstChildElement ex_root_empty = [] \<and>
   live_options Setting ex_menus \<noteq> [] \<and>
   LoadPreset ''p'' Setting ex_menus (ex_world_with ex_root_empty) = Inl NullDereference \<and>
   files (ex_world_with ex_root_drifted) (PresetPath ''p'' Setting) =
     Some (XmlFile \<lparr>RootElement = Some ex_root_drifted\<rparr>) \<and>
   RootName ex_root_drifted = ''settings'' \<and>
   FirstChildElement ex_root_drifted \<noteq> [] \<and>
   LoadPreset ''p'' Setting ex_menus (ex_world_with ex_root_drifted) \<noteq> Inl NullDereference"
  using
    LoadPreset_null_cursor_iff [of "ex_world_with ex_root_empty" "''p''" Setting
      "\<lparr>RootElement = Some ex_root_empty\<rparr>" ex_root_empty ex_menus]
    LoadPreset_null_cursor_iff [of "ex_world_with ex_root_drifted" "''p''" Setting
      "\<lparr>RootElement = Some ex_root_drifted\<rparr>" ex_root_drifted ex_menus]
  by (simp add: ex_defs FirstChildElement_def live_options_def IsCategory_def)

text \<open>
  C10: whenever the preset file is read successfully and its root element is named
  \<open>settings\<close>, \<open>LoadPreset\<close> should return true, however many entries are matched. For the
  document \<open><settings/>\<close>, which has no entry, and a live option of the loaded category
  it does not return: the first iteration dereferences the null cursor.
\<close>

theorem LoadPreset_empty_document_no_return:
  "files (ex_world_with ex_root_empty) (PresetPath ''p'' Setting) =
     Some (XmlFile \<lparr>RootElement = Some ex_root_empty\<rparr>) \<and>
   RootName ex_root_empty = ''settings'' \<and>
   LoadPreset ''p'' Setting ex_menus (ex_world_with ex_root_empty) = Inl NullDereference"
  by (simp add: ex_defs eval_defs)

end
